theory Spec2Isabelle
  imports Complex_Main "HOL-Library.Sublist"
begin

section \<open>Python built-ins used by parser.py\<close>

text \<open>
  The exceptions that the modelled code can raise. All of them are subclasses of
  Exception, so the handler of \<open>start_parser\<close> catches every one of them.
\<close>

datatype py_error = TypeError | AttributeError | IndexError | ValueError | FileNotFoundError

text \<open>Truth value of a value that is a str or None: None and the empty string are falsy.\<close>

fun truthy :: "string option \<Rightarrow> bool" where
  "truthy None = False"
| "truthy (Some s) = (s \<noteq> [])"

text \<open>
  \<open>s.split(sep)\<close>: the pieces between the occurrences of a non-empty separator, found
  from left to right without overlap (Python raises on an empty separator; the parser
  only splits on the constants '/catalog' and 'PAGEN_1='). The accumulator holds the
  current piece in reverse.
\<close>

function split_acc :: "string \<Rightarrow> string \<Rightarrow> string \<Rightarrow> string list" where
  "split_acc sep acc [] = [rev acc]"
| "split_acc sep acc (c # cs) =
     (if sep \<noteq> [] \<and> prefix sep (c # cs)
      then rev acc # split_acc sep [] (drop (length sep) (c # cs))
      else split_acc sep (c # acc) cs)"
  by pat_completeness auto
termination
  by (relation "measure (\<lambda>(sep, acc, s). length s)") auto

text \<open>\<open>s.split(sep)[-1]\<close>; the list of pieces is never empty.\<close>

definition split_last :: "string \<Rightarrow> string \<Rightarrow> string" where
  "split_last sep s = last (split_acc sep [] s)"

text \<open>The slice \<open>s[1:-1]\<close>: the string without its first and last character.\<close>

definition slice_1_m1 :: "string \<Rightarrow> string" where
  "slice_1_m1 s = butlast (tl s)"

text \<open>
  \<open>int(s)\<close> on ASCII text: surrounding whitespace is dropped, one sign is allowed,
  and the rest must be decimal digits, where a single underscore may stand between two
  digits. \<open>None\<close> is the ValueError.
\<close>

definition is_space :: "char \<Rightarrow> bool" where
  "is_space c = (c \<in> set [CHR 0x09, CHR 0x0A, CHR 0x0B, CHR 0x0C, CHR 0x0D,
                           CHR 0x1C, CHR 0x1D, CHR 0x1E, CHR 0x1F, CHR 0x20])"

definition is_digit :: "char \<Rightarrow> bool" where
  "is_digit c = (c \<in> set ''0123456789'')"

definition digit_val :: "char \<Rightarrow> int" where
  "digit_val c = of_char c - 48"

definition strip :: "string \<Rightarrow> string" where
  "strip s = rev (dropWhile is_space (rev (dropWhile is_space s)))"

fun digits :: "int \<Rightarrow> string \<Rightarrow> int option" where
  "digits acc [] = Some acc"
| "digits acc [c] = (if is_digit c then Some (10 * acc + digit_val c) else None)"
| "digits acc (c # d # cs) =
     (if is_digit c then digits (10 * acc + digit_val c) (d # cs)
      else if c = CHR ''_'' \<and> is_digit d then digits acc (d # cs)
      else None)"

definition unsigned :: "string \<Rightarrow> int option" where
  "unsigned s =
     (case s of [] \<Rightarrow> None
      | c # cs \<Rightarrow> if is_digit c then digits (digit_val c) cs else None)"

definition py_int :: "string \<Rightarrow> int option" where
  "py_int s =
     (case strip s of [] \<Rightarrow> None
      | c # cs \<Rightarrow>
          if c = CHR ''-'' then map_option uminus (unsigned cs)
          else if c = CHR ''+'' then unsigned cs
          else unsigned (c # cs))"


section \<open>Data of the parser\<close>

text \<open>
  One entry of \<open>self.results\<close>: the dict built at the end of \<open>get_item_data\<close>, with
  its fourteen keys. A value that the code sets to a str or to None is a
  \<open>string option\<close>.
\<close>

record sku =
  price_datetime :: nat
  sku_name :: string
  sku_country :: "string option"
  sku_link :: string
  sku_quantity_min :: "string option"
  sku_images :: "string option"
  sku_article :: "string option"
  sku_barcode :: "string option"
  sku_weight_min :: "string option"
  sku_volume_min :: "string option"
  price :: "string option"
  sku_category :: "string option"
  price_promo :: "string option"
  sku_status :: string

text \<open>One dict of \<open>cats_data\<close> in \<open>parse_cats\<close>.\<close>

record category =
  cat_name :: string
  cat_id :: string
  parent_id :: "string option"
  cat_link :: string

text \<open>
  The configuration (config.json) as far as the control flow reads it. \<open>max_retries\<close>,
  \<open>restart\<close>, \<open>delay_range_s\<close> and \<open>categories\<close> are \<open>None\<close> when the key
  is absent or null. \<open>delay_range_s\<close> is the number 0 or a pair \<open>[min, max]\<close>.
  Numbers that may be fractions (seconds, minutes) are reals. The request headers and the
  two directory names do not influence the control flow and are left out.
\<close>

record restart_cfg =
  restart_count :: int
  interval_m :: real

datatype delay_range = Zero | Range real real

record config =
  max_retries :: "int option"
  restart :: "restart_cfg option"
  delay_range_s :: "delay_range option"
  categories :: "string list option"


subsection \<open>Documents\<close>

text \<open>
  \<open>BeautifulSoup(source, 'lxml')\<close> is a library call. A parsed document is represented by
  the answers to the queries that the parser sends to it.

  A row of the offers table (\<open>tr.b-catalog-element-offer\<close>) is its number of \<open>td\<close>
  cells together with the values that lines 404 to 461 read from the cells; these values
  are opaque to the control flow.
\<close>

record offer =
  ncols :: nat
  o_article :: "string option"
  o_barcode :: "string option"
  o_quantity_min :: "string option"
  o_weight_min :: "string option"
  o_volume_min :: "string option"
  o_price :: "string option"
  o_price_promo :: "string option"
  o_status :: string

text \<open>
  An \<open>li.lev1\<close> of the catalogue menu: the \<open>a.catalog-menu-icon\<close> (absent, or the
  text of its \<open>span\<close> if any and its \<open>href\<close> if any) and the \<open>ul.catalog-cols\<close>
  (absent, or the text and the \<open>href\<close> of each of its anchors).
\<close>

record lev1 =
  icon :: "(string option \<times> string option) option"
  cols :: "(string \<times> string option) list option"

text \<open>
  The document itself:
  \<^item> \<open>item_divs\<close>: for every \<open>div.catalog-item-top\<close>, its \<open>a.name\<close> (absent, or
    its \<open>href\<close> if any);
  \<^item> \<open>navigation\<close>: the \<open>div.navigation\<close> (absent, or the \<open>href\<close> of each of its
    anchors);
  \<^item> the item page: the name in \<open>h1\<close> (the empty string without one), the quantity
    found in the name, whether \<open>div.catalog-element\<close> exists, country, category path,
    images, and the rows of the offers table (none without a table);
  \<^item> \<open>catalog_menu\<close>: the \<open>div#catalog-menu\<close> (absent, or its \<open>li.lev1\<close>).
\<close>

record soup =
  item_divs :: "string option option list"
  navigation :: "string option list option"
  h1_name :: string
  name_quantity :: "string option"
  main_div :: bool
  country :: "string option"
  breadcrumb :: "string option"
  pictures :: "string option"
  offers :: "offer list"
  catalog_menu :: "lev1 list option"


subsection \<open>The world outside and the observable effects\<close>

text \<open>
  What \<open>requests.get\<close> does: it raises one of the caught exceptions
  (RequestException, Timeout, TooManyRedirects), or it returns a response with its
  \<open>ok\<close> flag, its status code and its text.
\<close>

datatype outcome = Raised | Response bool int string

text \<open>
  The lines written to the two loggers, and the other effects, in the order in which they
  happen:
  \<^item> \<open>GetUrl\<close>: the debug line GET URL at the entry of \<open>_get_source\<close>; it records
    the \<open>params\<close> argument of the call along with the URL;
  \<^item> \<open>Request\<close>: one call of \<open>requests.get\<close>; \<open>ResponseUrl\<close>: the debug line
    RESPONSE URL after a call that returned; \<open>TransportError\<close>: the error line of the
    handler in \<open>_get_source\<close>;
  \<^item> \<open>MakeDelay\<close>: the debug line MAKE DELAY; \<open>Sleep\<close>: one completed
    \<open>time.sleep\<close> with its length in seconds;
  \<^item> \<open>StartCategory\<close>, \<open>NextPage\<close>, \<open>NoSource\<close>, \<open>NoMainDiv\<close>: the lines START
    CATEGORY, GET NEXT PAGE, NO SOURCE IN and no main_div;
  \<^item> \<open>WriteCsv\<close>: one call of \<open>write_csv\<close> with its data;
  \<^item> \<open>SetMaxRetries\<close>, \<open>SetRestart\<close>: the info lines of \<open>_prepare_to_work\<close>;
  \<^item> \<open>StartParsing\<close>, \<open>MainError\<close>, \<open>BadTry\<close>, \<open>BadTrySleep\<close>, \<open>EndParsing\<close>:
    the lines of \<open>start_parser\<close>.
\<close>

datatype event =
    GetUrl string "int option"
  | Request string "int option"
  | ResponseUrl
  | TransportError
  | MakeDelay real
  | Sleep real
  | StartCategory string
  | NoSource string
  | NextPage int int string
  | NoMainDiv string
  | WriteCsv "sku list"
  | SetMaxRetries int
  | SetRestart
  | StartParsing
  | MainError py_error
  | BadTry int
  | BadTrySleep int real
  | EndParsing

text \<open>
  The environment. Its answers may change over time: the time of a call is the number of
  effects that happened before it. \<open>net\<close> is the remote site, \<open>files\<close> the local
  file system (\<open>None\<close>: no such file), \<open>bs\<close> the HTML parser, \<open>rnd\<close> the value of
  \<open>random.random()\<close> and \<open>now\<close> the clock.
\<close>

record world =
  net :: "nat \<Rightarrow> string \<Rightarrow> int option \<Rightarrow> outcome"
  files :: "string \<Rightarrow> string option"
  bs :: "string \<Rightarrow> soup"
  rnd :: "nat \<Rightarrow> real"
  now :: "nat \<Rightarrow> nat"

text \<open>
  The object \<open>ZootovaryParser\<close>: its configuration, its list of results, and the trace of
  the effects so far. A method returns the exception it raised, or its value, together
  with the object as it is then.
\<close>

record parser =
  config :: config
  results :: "sku list"
  trace :: "event list"

definition emit :: "event \<Rightarrow> parser \<Rightarrow> parser" where
  "emit e s = s\<lparr>trace := trace s @ [e]\<rparr>"

definition domain :: string where
  "domain = ''https://zootovary.ru''"


section \<open>The methods\<close>

subsection \<open>\<open>_prepare_to_work\<close> (the part on \<open>max_retries\<close> and \<open>restart\<close>)\<close>

definition falsy_int :: "int option \<Rightarrow> bool" where
  "falsy_int v = (v = None \<or> v = Some 0)"

definition prepare_to_work :: "parser \<Rightarrow> parser" where
  "prepare_to_work s =
     (let s1 = (if falsy_int (max_retries (config s))
                then emit (SetMaxRetries 1) (s\<lparr>config := (config s)\<lparr>max_retries := Some 1\<rparr>\<rparr>)
                else s)
      in if restart (config s1) = None
         then emit SetRestart
                (s1\<lparr>config := (config s1)\<lparr>restart :=
                      Some \<lparr>restart_count = 3, interval_m = 2 / 10\<rparr>\<rparr>\<rparr>)
         else s1)"


subsection \<open>\<open>_get_source\<close>\<close>

text \<open>
  The \<open>while max_retries > 0\<close> loop. A try that raises, and a response that is not
  accepted, both count the local \<open>max_retries\<close> down by one.
\<close>

function retry_loop ::
  "world \<Rightarrow> string \<Rightarrow> int option \<Rightarrow> int \<Rightarrow> parser \<Rightarrow> string option \<times> parser" where
  "retry_loop w url params n s =
     (if n > 0 then
        (case net w (length (trace s)) url params of
           Raised \<Rightarrow>
             retry_loop w url params (n - 1) (emit TransportError (emit (Request url params) s))
         | Response ok code content \<Rightarrow>
             (let s1 = emit ResponseUrl (emit (Request url params) s)
              in if ok \<and> code = 200 then (Some content, s1)
                 else retry_loop w url params (n - 1) s1))
      else (None, s))"
  by pat_completeness auto
termination
  by (relation "measure (\<lambda>(w, url, params, n, s). nat n)") auto

declare retry_loop.simps [simp del]

definition request_source ::
  "world \<Rightarrow> string \<Rightarrow> int option \<Rightarrow> parser \<Rightarrow> (py_error + string option) \<times> parser" where
  "request_source w url params s =
     (case max_retries (config s) of
        None \<Rightarrow> (Inl TypeError, s)
      | Some n \<Rightarrow> (case retry_loop w url params n s of (r, s1) \<Rightarrow> (Inr r, s1)))"

definition read_path :: "world \<Rightarrow> string \<Rightarrow> parser \<Rightarrow> (py_error + string option) \<times> parser" where
  "read_path w p s =
     (case files w p of
        None \<Rightarrow> (Inl FileNotFoundError, s)
      | Some source \<Rightarrow> (Inr (Some source), s))"

text \<open>
  \<open>if path:\<close> takes the file branch for a non-empty path only. Comparing \<open>None > 0\<close>
  (no \<open>max_retries\<close> in the configuration) is a TypeError.
\<close>

definition get_source ::
  "world \<Rightarrow> string \<Rightarrow> int option \<Rightarrow> string option \<Rightarrow> parser
     \<Rightarrow> (py_error + string option) \<times> parser" where
  "get_source w url params path s =
     (let s1 = emit (GetUrl url params) s in
      case path of
        None \<Rightarrow> request_source w url params s1
      | Some p \<Rightarrow> if p = [] then request_source w url params s1 else read_path w p s1)"


subsection \<open>\<open>_make_delay\<close>\<close>

text \<open>\<open>time.sleep\<close> raises ValueError for a negative length.\<close>

definition sleep :: "real \<Rightarrow> parser \<Rightarrow> (py_error + unit) \<times> parser" where
  "sleep d s = (if d < 0 then (Inl ValueError, s) else (Inr (), emit (Sleep d) s))"

text \<open>\<open>random.uniform(a, b)\<close> is \<open>a + (b - a) * random()\<close>.\<close>

definition uniform :: "world \<Rightarrow> real \<Rightarrow> real \<Rightarrow> parser \<Rightarrow> real" where
  "uniform w a b s = a + (b - a) * rnd w (length (trace s))"

definition delay_between :: "world \<Rightarrow> real \<Rightarrow> real \<Rightarrow> parser \<Rightarrow> (py_error + unit) \<times> parser" where
  "delay_between w min_delay max_delay s =
     (let delay = uniform w min_delay max_delay s
      in sleep delay (emit (MakeDelay delay) s))"

definition make_delay :: "world \<Rightarrow> parser \<Rightarrow> (py_error + unit) \<times> parser" where
  "make_delay w s =
     (case delay_range_s (config s) of
        Some Zero \<Rightarrow> (Inr (), s)
      | None \<Rightarrow> delay_between w 1 3 s
      | Some (Range min_delay max_delay) \<Rightarrow> delay_between w min_delay max_delay s)"


subsection \<open>\<open>_need_to_append_results\<close> and the append of \<open>get_item_data\<close>\<close>

fun need_to_append_results :: "sku list \<Rightarrow> sku \<Rightarrow> bool" where
  "need_to_append_results [] new_result = True"
| "need_to_append_results (result # rest) new_result =
     (if sku_article result = sku_article new_result \<and> truthy (sku_article new_result) \<and>
         sku_barcode result = sku_barcode new_result \<and> truthy (sku_barcode new_result)
      then False
      else need_to_append_results rest new_result)"

text \<open>Lines 481 and 482: \<open>if self._need_to_append_results(res): self.results.append(res)\<close>.\<close>

definition append_if_needed :: "sku \<Rightarrow> parser \<Rightarrow> parser" where
  "append_if_needed res s =
     (if need_to_append_results (results s) res then s\<lparr>results := results s @ [res]\<rparr> else s)"


subsection \<open>\<open>get_item_data\<close>\<close>

definition make_sku :: "soup \<Rightarrow> string \<Rightarrow> nat \<Rightarrow> offer \<Rightarrow> sku" where
  "make_sku doc item_url t x =
     \<lparr>price_datetime = t,
      sku_name = h1_name doc,
      sku_country = country doc,
      sku_link = item_url,
      sku_quantity_min =
        (case o_quantity_min x of None \<Rightarrow> name_quantity doc | Some q \<Rightarrow> Some q),
      sku_images = pictures doc,
      sku_article = o_article x,
      sku_barcode = o_barcode x,
      sku_weight_min = o_weight_min x,
      sku_volume_min = o_volume_min x,
      price = o_price x,
      sku_category = breadcrumb doc,
      price_promo = o_price_promo x,
      sku_status = o_status x\<rparr>"

text \<open>
  The loop over the rows. A row without cells is skipped; in a row with fewer than six
  cells \<open>columns[5]\<close> is an IndexError that no handler catches.
\<close>

fun offers_loop ::
  "soup \<Rightarrow> string \<Rightarrow> nat \<Rightarrow> offer list \<Rightarrow> parser \<Rightarrow> (py_error + unit) \<times> parser" where
  "offers_loop doc item_url t [] s = (Inr (), s)"
| "offers_loop doc item_url t (x # xs) s =
     (if ncols x = 0 then offers_loop doc item_url t xs s
      else if ncols x < 6 then (Inl IndexError, s)
      else offers_loop doc item_url t xs (append_if_needed (make_sku doc item_url t x) s))"

definition item_page ::
  "world \<Rightarrow> string \<Rightarrow> string \<Rightarrow> parser \<Rightarrow> (py_error + unit) \<times> parser" where
  "item_page w item_url source s =
     (let doc = bs w source; t = now w (length (trace s)) in
      if \<not> main_div doc then (Inr (), emit (NoMainDiv item_url) s)
      else offers_loop doc item_url t (offers doc) s)"

definition get_item_data :: "world \<Rightarrow> string \<Rightarrow> parser \<Rightarrow> (py_error + unit) \<times> parser" where
  "get_item_data w item_url s =
     (case get_source w item_url None None s of
        (Inl e, s1) \<Rightarrow> (Inl e, s1)
      | (Inr None, s1) \<Rightarrow> (Inr (), emit (NoSource item_url) s1)
      | (Inr (Some source), s1) \<Rightarrow>
          if source = [] then (Inr (), emit (NoSource item_url) s1)
          else item_page w item_url source s1)"


subsection \<open>\<open>_extract_items\<close>\<close>

text \<open>
  \<open>item.find('a', {'class': 'name'}).get('href')\<close> is an AttributeError without the
  anchor, and \<open>self.domain + link\<close> a TypeError without the \<open>href\<close>; no handler
  catches either.
\<close>

fun items_loop ::
  "world \<Rightarrow> string option option list \<Rightarrow> parser \<Rightarrow> (py_error + unit) \<times> parser" where
  "items_loop w [] s = (Inr (), s)"
| "items_loop w (item # rest) s =
     (case item of
        None \<Rightarrow> (Inl AttributeError, s)
      | Some None \<Rightarrow> (Inl TypeError, s)
      | Some (Some link) \<Rightarrow>
          (case get_item_data w (domain @ link) s of
             (Inl e, s1) \<Rightarrow> (Inl e, s1)
           | (Inr u, s1) \<Rightarrow>
               (case make_delay w s1 of
                  (Inl e, s2) \<Rightarrow> (Inl e, s2)
                | (Inr u, s2) \<Rightarrow> items_loop w rest s2)))"

definition extract_items :: "world \<Rightarrow> soup \<Rightarrow> parser \<Rightarrow> (py_error + unit) \<times> parser" where
  "extract_items w doc s = items_loop w (item_divs doc) s"


subsection \<open>\<open>get_items\<close>\<close>

text \<open>The loop \<open>for page_number in range(2, last_page_number + 1)\<close>.\<close>

fun pages_loop ::
  "world \<Rightarrow> string \<Rightarrow> int \<Rightarrow> int list \<Rightarrow> parser \<Rightarrow> (py_error + unit) \<times> parser" where
  "pages_loop w url last_page_number [] s = (Inr (), s)"
| "pages_loop w url last_page_number (page_number # rest) s =
     (case get_source w url (Some page_number) None
             (emit (NextPage page_number last_page_number url) s) of
        (Inl e, s1) \<Rightarrow> (Inl e, s1)
      | (Inr None, s1) \<Rightarrow> pages_loop w url last_page_number rest (emit (NoSource url) s1)
      | (Inr (Some source), s1) \<Rightarrow>
          if source = [] then pages_loop w url last_page_number rest (emit (NoSource url) s1)
          else (case extract_items w (bs w source) s1 of
                  (Inl e, s2) \<Rightarrow> (Inl e, s2)
                | (Inr u, s2) \<Rightarrow> pages_loop w url last_page_number rest s2))"

text \<open>
  The two \<open>try\<close> blocks after the first page. Without a \<open>div.navigation\<close> the
  AttributeError is caught; a navigation without anchors is an IndexError at \<open>[-1]\<close>,
  which is not caught; a last anchor without \<open>href\<close> (AttributeError at \<open>split\<close>) and
  a text that is no integer (ValueError) are caught.
\<close>

definition last_page_number :: "soup \<Rightarrow> py_error + int option" where
  "last_page_number doc =
     (case navigation doc of
        None \<Rightarrow> Inr None
      | Some anchors \<Rightarrow>
          if anchors = [] then Inl IndexError
          else (case last anchors of
                  None \<Rightarrow> Inr None
                | Some last_page_link \<Rightarrow> Inr (py_int (split_last ''PAGEN_1='' last_page_link))))"

definition first_page ::
  "world \<Rightarrow> string \<Rightarrow> string \<Rightarrow> parser \<Rightarrow> (py_error + unit) \<times> parser" where
  "first_page w url source s =
     (let doc = bs w source in
      case extract_items w doc s of
        (Inl e, s1) \<Rightarrow> (Inl e, s1)
      | (Inr u, s1) \<Rightarrow>
          (case last_page_number doc of
             Inl e \<Rightarrow> (Inl e, s1)
           | Inr None \<Rightarrow> (Inr (), s1)
           | Inr (Some n) \<Rightarrow> pages_loop w url n [2..n] s1))"

definition get_items :: "world \<Rightarrow> string \<Rightarrow> parser \<Rightarrow> (py_error + unit) \<times> parser" where
  "get_items w url s =
     (case get_source w url None None s of
        (Inl e, s1) \<Rightarrow> (Inl e, s1)
      | (Inr None, s1) \<Rightarrow> (Inr (), emit (NoSource url) s1)
      | (Inr (Some source), s1) \<Rightarrow>
          if source = [] then (Inr (), emit (NoSource url) s1)
          else first_page w url source s1)"


subsection \<open>\<open>parse_cats\<close>\<close>

definition cat_id_of :: "string \<Rightarrow> string" where
  "cat_id_of link = slice_1_m1 (split_last ''/catalog'' link)"

text \<open>Every missing element or attribute below is an AttributeError that nothing catches.\<close>

fun sub_cats :: "string \<Rightarrow> (string \<times> string option) list \<Rightarrow> py_error + category list" where
  "sub_cats main_cat_id [] = Inr []"
| "sub_cats main_cat_id ((name, href) # rest) =
     (case href of
        None \<Rightarrow> Inl AttributeError
      | Some link \<Rightarrow>
          (case sub_cats main_cat_id rest of
             Inl e \<Rightarrow> Inl e
           | Inr cs \<Rightarrow>
               Inr (\<lparr>cat_name = name, cat_id = cat_id_of link,
                      parent_id = Some main_cat_id, cat_link = link\<rparr> # cs)))"

fun main_cats :: "lev1 list \<Rightarrow> py_error + category list" where
  "main_cats [] = Inr []"
| "main_cats (main_cat # rest) =
     (case icon main_cat of
        None \<Rightarrow> Inl AttributeError
      | Some (None, href) \<Rightarrow> Inl AttributeError
      | Some (Some name, None) \<Rightarrow> Inl AttributeError
      | Some (Some name, Some link) \<Rightarrow>
          (case cols main_cat of
             None \<Rightarrow> Inl AttributeError
           | Some anchors \<Rightarrow>
               (case sub_cats (cat_id_of link) anchors of
                  Inl e \<Rightarrow> Inl e
                | Inr subs \<Rightarrow>
                    (case main_cats rest of
                       Inl e \<Rightarrow> Inl e
                     | Inr cs \<Rightarrow>
                         Inr (\<lparr>cat_name = name, cat_id = cat_id_of link,
                                parent_id = None, cat_link = link\<rparr> # subs @ cs)))))"

definition start_page ::
  "world \<Rightarrow> string \<Rightarrow> parser \<Rightarrow> (py_error + category list option) \<times> parser" where
  "start_page w source s =
     (case catalog_menu (bs w source) of
        None \<Rightarrow> (Inl AttributeError, s)
      | Some lis \<Rightarrow>
          (case main_cats lis of
             Inl e \<Rightarrow> (Inl e, s)
           | Inr cats_data \<Rightarrow> (Inr (Some cats_data), s)))"

text \<open>
  \<open>parse_cats()\<close> with \<open>write_csv=False\<close>, as \<open>_start_parser\<close> calls it. The bare
  \<open>return\<close> after the warning returns None.
\<close>

definition parse_cats :: "world \<Rightarrow> parser \<Rightarrow> (py_error + category list option) \<times> parser" where
  "parse_cats w s =
     (case get_source w domain None (Some ''start_page.html'') s of
        (Inl e, s1) \<Rightarrow> (Inl e, s1)
      | (Inr None, s1) \<Rightarrow> (Inr None, emit (NoSource domain) s1)
      | (Inr (Some source), s1) \<Rightarrow>
          if source = [] then (Inr None, emit (NoSource domain) s1)
          else start_page w source s1)"


subsection \<open>\<open>_start_parser\<close>\<close>

text \<open>
  The method \<open>_start_parser\<close> is \<open>private_start_parser\<close> here, the public
  \<open>start_parser\<close> keeps its name.
\<close>

definition write_csv :: "parser \<Rightarrow> parser" where
  "write_csv s = emit (WriteCsv (results s)) s"

fun discovered_loop ::
  "world \<Rightarrow> category list \<Rightarrow> parser \<Rightarrow> (py_error + unit) \<times> parser" where
  "discovered_loop w [] s = (Inr (), s)"
| "discovered_loop w (c # rest) s =
     (if truthy (parent_id c) then
        (case get_items w (domain @ cat_link c) (emit (StartCategory (domain @ cat_link c)) s) of
           (Inl e, s1) \<Rightarrow> (Inl e, s1)
         | (Inr u, s1) \<Rightarrow> discovered_loop w rest s1)
      else discovered_loop w rest s)"

definition category_url :: "string \<Rightarrow> string" where
  "category_url c = domain @ ''/catalog/'' @ c @ ''/''"

fun configured_loop ::
  "world \<Rightarrow> string list \<Rightarrow> parser \<Rightarrow> (py_error + unit) \<times> parser" where
  "configured_loop w [] s = (Inr (), s)"
| "configured_loop w (c # rest) s =
     (case get_items w (category_url c) (emit (StartCategory (category_url c)) s) of
        (Inl e, s1) \<Rightarrow> (Inl e, s1)
      | (Inr u, s1) \<Rightarrow> configured_loop w rest s1)"

text \<open>
  Without configured categories the result of \<open>parse_cats\<close> is iterated; iterating None
  is a TypeError. The CSV file is written after the loop, so only when no exception
  ended it.
\<close>

definition discover_and_parse :: "world \<Rightarrow> parser \<Rightarrow> (py_error + unit) \<times> parser" where
  "discover_and_parse w s =
     (case parse_cats w s of
        (Inl e, s1) \<Rightarrow> (Inl e, s1)
      | (Inr None, s1) \<Rightarrow> (Inl TypeError, s1)
      | (Inr (Some cats), s1) \<Rightarrow>
          (case discovered_loop w cats s1 of
             (Inl e, s2) \<Rightarrow> (Inl e, s2)
           | (Inr u, s2) \<Rightarrow> (Inr (), write_csv s2)))"

definition parse_configured :: "world \<Rightarrow> string list \<Rightarrow> parser \<Rightarrow> (py_error + unit) \<times> parser" where
  "parse_configured w cats s =
     (case configured_loop w cats s of
        (Inl e, s1) \<Rightarrow> (Inl e, s1)
      | (Inr u, s1) \<Rightarrow> (Inr (), write_csv s1))"

definition private_start_parser :: "world \<Rightarrow> parser \<Rightarrow> (py_error + unit) \<times> parser" where
  "private_start_parser w s =
     (case categories (config s) of
        None \<Rightarrow> discover_and_parse w s
      | Some cats \<Rightarrow> if cats = [] then discover_and_parse w s else parse_configured w cats s)"


subsection \<open>\<open>start_parser\<close>\<close>

text \<open>
  The loop \<open>for try_count in range(1, restart_count + 1)\<close> around one traversal
  \<open>run\<close>. The sleep stands inside the handler, so an exception of the sleep leaves
  \<open>start_parser\<close>.
\<close>

fun attempts ::
  "(parser \<Rightarrow> (py_error + unit) \<times> parser) \<Rightarrow> int \<Rightarrow> real \<Rightarrow> int list \<Rightarrow> parser
     \<Rightarrow> (py_error + unit) \<times> parser" where
  "attempts run rc im [] s = (Inr (), s)"
| "attempts run rc im (try_count # rest) s =
     (case run s of
        (Inr u, s1) \<Rightarrow> (Inr (), s1)
      | (Inl e, s1) \<Rightarrow>
          (let s2 = emit (MainError e) s1 in
           if try_count = rc then (Inr (), emit (BadTry try_count) s2)
           else (case sleep (im * 60) (emit (BadTrySleep try_count im) s2) of
                   (Inl e', s3) \<Rightarrow> (Inl e', s3)
                 | (Inr u, s3) \<Rightarrow> attempts run rc im rest s3)))"

definition supervise ::
  "(parser \<Rightarrow> (py_error + unit) \<times> parser) \<Rightarrow> parser \<Rightarrow> (py_error + unit) \<times> parser" where
  "supervise run s0 =
     (let s = prepare_to_work s0 in
      case restart (config s) of
        None \<Rightarrow> (Inl AttributeError, s)
      | Some r \<Rightarrow>
          (case attempts run (restart_count r) (interval_m r) [1..restart_count r]
                  (emit StartParsing s) of
             (Inl e, s1) \<Rightarrow> (Inl e, s1)
           | (Inr u, s1) \<Rightarrow> (Inr (), emit EndParsing s1)))"

definition start_parser :: "world \<Rightarrow> parser \<Rightarrow> (py_error + unit) \<times> parser" where
  "start_parser w s0 = supervise (private_start_parser w) s0"

text \<open>\<open>__init__\<close>: an empty list of results and the configuration read from the file.\<close>

definition init :: "config \<Rightarrow> parser" where
  "init cfg = \<lparr>config = cfg, results = [], trace = []\<rparr>"


section \<open>Observations\<close>

text \<open>
  The identities in a list of results: the pair of article and barcode of every record in
  which both are non-empty.
\<close>

definition identities :: "sku list \<Rightarrow> (string option \<times> string option) list" where
  "identities rs =
     map (\<lambda>r. (sku_article r, sku_barcode r))
       (filter (\<lambda>r. truthy (sku_article r) \<and> truthy (sku_barcode r)) rs)"

text \<open>The calls of \<open>requests.get\<close> in a trace, and the responses that are accepted.\<close>

fun is_request :: "event \<Rightarrow> bool" where
  "is_request (Request url params) = True"
| "is_request e = False"

definition requests_of :: "event list \<Rightarrow> event list" where
  "requests_of tr = filter is_request tr"

fun accepted :: "outcome \<Rightarrow> bool" where
  "accepted Raised = False"
| "accepted (Response ok code content) = (ok \<and> code = 200)"


text \<open>
  The layer of the code that produces an effect: fetching and processing items (0),
  paging through a category (1), the loop over the categories (2), \<open>start_parser\<close>
  (3). \<open>evolves n s s'\<close> says that \<open>s'\<close> comes from \<open>s\<close> by effects of the layers up
  to \<open>n\<close>, where a written CSV file holds the results of that moment, and by offering
  records to the store. Every method below \<open>_prepare_to_work\<close> changes the parser in
  this way only.
\<close>

fun level :: "event \<Rightarrow> nat" where
  "level (GetUrl url params) = (if params = None then 0 else 1)"
| "level (Request url params) = (if params = None then 0 else 1)"
| "level ResponseUrl = 0"
| "level TransportError = 0"
| "level (MakeDelay d) = 0"
| "level (Sleep d) = 0"
| "level (NoSource url) = 0"
| "level (NoMainDiv url) = 0"
| "level (NextPage n l url) = 1"
| "level (StartCategory url) = 2"
| "level (WriteCsv d) = 2"
| "level e = 3"

fun csv_ok :: "parser \<Rightarrow> event \<Rightarrow> bool" where
  "csv_ok s (WriteCsv d) = (d = results s)"
| "csv_ok s e = True"

definition allowed :: "nat \<Rightarrow> parser \<Rightarrow> event \<Rightarrow> bool" where
  "allowed n s e = (level e \<le> n \<and> csv_ok s e)"

inductive evolves :: "nat \<Rightarrow> parser \<Rightarrow> parser \<Rightarrow> bool" for n and s where
  evolves_refl: "evolves n s s"
| evolves_emit: "evolves n s s' \<Longrightarrow> allowed n s' e \<Longrightarrow> evolves n s (emit e s')"
| evolves_append: "evolves n s s' \<Longrightarrow> evolves n s (append_if_needed res s')"








text \<open>The data of the \<open>write_csv\<close> calls in a trace, in order.\<close>

fun csv_files :: "event list \<Rightarrow> sku list list" where
  "csv_files [] = []"
| "csv_files (WriteCsv d # tr) = d # csv_files tr"
| "csv_files (e # tr) = csv_files tr"








section \<open>Example data\<close>

text \<open>
  Records, configurations and worlds on which the theorems below are evaluated. The site
  of \<open>demo_shop\<close> has the category toys with two listing pages of one item each, a
  category whose listing page has an item block without link, and a category whose last
  page is 0; until the time \<open>heal\<close> the page of the second item has an offers row of
  three cells.
\<close>

definition sku_A1 :: sku where
  "sku_A1 =
     \<lparr>price_datetime = 1, sku_name = ''Feed 12 pcs'', sku_country = Some ''France'',
      sku_link = ''https://zootovary.ru/catalog/item1/'', sku_quantity_min = Some ''12'',
      sku_images = None, sku_article = Some ''A1'', sku_barcode = Some ''B1'',
      sku_weight_min = Some ''400 g'', sku_volume_min = None, price = Some ''100'',
      sku_category = Some ''Dogs|Feed'', price_promo = None, sku_status = ''1''\<rparr>"

definition sku_blank :: sku where
  "sku_blank = sku_A1\<lparr>sku_article := Some [], sku_barcode := None\<rparr>"

definition config_3 :: config where
  "config_3 =
     \<lparr>max_retries = Some 3, restart = Some \<lparr>restart_count = 2, interval_m = 1 / 2\<rparr>,
      delay_range_s = Some Zero, categories = None\<rparr>"

definition site_down :: world where
  "site_down =
     \<lparr>net = (\<lambda>t url params. if even t then Raised else Response False 503 ''Service Unavailable''),
      files = (\<lambda>p. None),
      bs = (\<lambda>source. \<lparr>item_divs = [], navigation = None, h1_name = [], name_quantity = None,
                        main_div = False, country = None, breadcrumb = None, pictures = None,
                        offers = [], catalog_menu = None\<rparr>),
      rnd = (\<lambda>t. 0), now = (\<lambda>t. t)\<rparr>"

definition site_up :: world where
  "site_up = site_down\<lparr>net := (\<lambda>t url params. Response True 200 ''<html></html>'')\<rparr>"


definition config_negative :: config where
  "config_negative = config_3\<lparr>max_retries := Some (- 1)\<rparr>"

definition empty_start_page :: world where
  "empty_start_page = site_up\<lparr>files := (\<lambda>p. if p = ''start_page.html'' then Some [] else None)\<rparr>"





definition doc_blank :: soup where
  "doc_blank =
     \<lparr>item_divs = [], navigation = None, h1_name = [], name_quantity = None,
      main_div = False, country = None, breadcrumb = None, pictures = None,
      offers = [], catalog_menu = None\<rparr>"

definition demo_row :: "string \<Rightarrow> string \<Rightarrow> nat \<Rightarrow> offer" where
  "demo_row article barcode n =
     \<lparr>ncols = n, o_article = Some article, o_barcode = Some barcode, o_quantity_min = None,
      o_weight_min = Some ''1 kg'', o_volume_min = None, o_price = Some ''250'',
      o_price_promo = None, o_status = ''1''\<rparr>"

definition demo_bs :: "string \<Rightarrow> soup" where
  "demo_bs source =
     (if source = ''list1'' then
        doc_blank\<lparr>item_divs := [Some (Some ''/catalog/item1/'')],
                   navigation := Some [Some ''/catalog/toys/?PAGEN_1=1'',
                                       Some ''/catalog/toys/?PAGEN_1=2'']\<rparr>
      else if source = ''list2'' then
        doc_blank\<lparr>item_divs := [Some (Some ''/catalog/item2/'')],
                   navigation := Some [Some ''/catalog/toys/?PAGEN_1=1'',
                                       Some ''/catalog/toys/?PAGEN_1=2'']\<rparr>
      else if source = ''item1'' then
        doc_blank\<lparr>h1_name := ''Ball'', main_div := True, offers := [demo_row ''A1'' ''B1'' 6]\<rparr>
      else if source = ''item2'' then
        doc_blank\<lparr>h1_name := ''Rope'', main_div := True,
                   offers := [demo_row ''A1'' ''B1'' 6, demo_row ''A2'' ''B2'' 6]\<rparr>
      else if source = ''short'' then
        doc_blank\<lparr>h1_name := ''Rope'', main_div := True, offers := [demo_row ''A2'' ''B2'' 3]\<rparr>
      else if source = ''badlist'' then
        doc_blank\<lparr>item_divs := [None],
                   navigation := Some [Some ''/catalog/bad/?PAGEN_1=2'']\<rparr>
      else if source = ''zerolist'' then
        doc_blank\<lparr>navigation := Some [Some ''/catalog/zero/?PAGEN_1=0'']\<rparr>
      else if source = ''start'' then
        doc_blank\<lparr>catalog_menu := Some
          [\<lparr>icon = Some (Some ''Dogs'', Some ''/catalog/dogs/''),
            cols = Some [(''Bad'', Some ''/catalog/bad/''), (''Toys'', Some ''/catalog/toys/'')]\<rparr>]\<rparr>
      else if source = ''start_ok'' then
        doc_blank\<lparr>catalog_menu := Some
          [\<lparr>icon = Some (Some ''Dogs'', Some ''/catalog/dogs/''),
            cols = Some [(''Toys'', Some ''/catalog/toys/'')]\<rparr>]\<rparr>
      else doc_blank)"

definition demo_net :: "nat \<Rightarrow> nat \<Rightarrow> string \<Rightarrow> int option \<Rightarrow> outcome" where
  "demo_net heal t url params =
     (if url = ''https://zootovary.ru/catalog/toys/''
      then Response True 200 (if params = None then ''list1'' else ''list2'')
      else if url = ''https://zootovary.ru/catalog/item1/'' then Response True 200 ''item1''
      else if url = ''https://zootovary.ru/catalog/item2/''
      then Response True 200 (if t < heal then ''short'' else ''item2'')
      else if url = ''https://zootovary.ru/catalog/bad/'' then Response True 200 ''badlist''
      else if url = ''https://zootovary.ru/catalog/zero/'' then Response True 200 ''zerolist''
      else Response False 404 [])"

definition demo_shop :: "nat \<Rightarrow> string \<Rightarrow> world" where
  "demo_shop heal start =
     \<lparr>net = demo_net heal,
      files = (\<lambda>p. if p = ''start_page.html'' then Some start else None),
      bs = demo_bs, rnd = (\<lambda>t. 1 / 2), now = (\<lambda>t. t)\<rparr>"

definition config_toys :: config where
  "config_toys =
     \<lparr>max_retries = Some 1, restart = Some \<lparr>restart_count = 2, interval_m = 1 / 2\<rparr>,
      delay_range_s = Some Zero, categories = Some [''toys'']\<rparr>"







section \<open>Properties\<close>

subsection \<open>Evaluation on concrete data\<close>

text \<open>The definitions that the simplifier unfolds to run a method on example data.\<close>

lemmas demo_defs =
  demo_shop_def demo_net_def demo_bs_def doc_blank_def demo_row_def config_toys_def init_def

lemmas method_defs =
  get_items_def first_page_def last_page_number_def extract_items_def get_item_data_def
  item_page_def make_sku_def append_if_needed_def get_source_def request_source_def read_path_def
  retry_loop.simps make_delay_def delay_between_def uniform_def sleep_def emit_def Let_def
  domain_def py_int_def split_last_def strip_def is_space_def unsigned_def is_digit_def
  digit_val_def


lemmas supervisor_defs =
  start_parser_def supervise_def prepare_to_work_def falsy_int_def private_start_parser_def
  parse_configured_def category_url_def write_csv_def


subsection \<open>What a call changes\<close>

text \<open>
  Every method extends the trace, leaves the configuration alone, touches the store only
  through the check of lines 481 and 482, and produces effects of its own layer and the
  layers below. The lemmas follow the call graph from \<open>_get_source\<close> up to
  \<open>start_parser\<close>; each extends a chain \<open>evolves n s0 s\<close> by one call.
\<close>

lemma need_to_append_results_iff:
  "need_to_append_results rs new \<longleftrightarrow>
     \<not> (\<exists>r \<in> set rs. sku_article r = sku_article new \<and> truthy (sku_article new) \<and>
                       sku_barcode r = sku_barcode new \<and> truthy (sku_barcode new))"
  by (induction rs) auto

lemma identities_append_if_needed:
  "distinct (identities (results s)) \<Longrightarrow> distinct (identities (results (append_if_needed new s)))"
  by (auto simp: append_if_needed_def identities_def need_to_append_results_iff)

lemma csv_files_append: "csv_files (a @ b) = csv_files a @ csv_files b"
  by (induction a rule: csv_files.induct) simp_all

lemma evolves_mono: "evolves n s s' \<Longrightarrow> n \<le> m \<Longrightarrow> evolves m s s'"
  by (induction rule: evolves.induct) (auto intro: evolves.intros simp: allowed_def)



lemma evolves_results: "evolves n s s' \<Longrightarrow> prefix (results s) (results s')"
  by (induction rule: evolves.induct) (auto simp: emit_def append_if_needed_def)

lemma evolves_identities:
  "evolves n s s' \<Longrightarrow> distinct (identities (results s)) \<Longrightarrow> distinct (identities (results s'))"
  by (induction rule: evolves.induct) (auto simp: emit_def identities_append_if_needed)





lemma retry_loop_evolves:
  "evolves n s0 s \<Longrightarrow> (if params = None then 0 else 1) \<le> n \<Longrightarrow>
   evolves n s0 (snd (retry_loop w url params k s))"
proof (induction w url params k s rule: retry_loop.induct)
  case (1 w url params k s)
  have e1: "evolves n s0 (emit (Request url params) s)"
    using 1(3,4) by (auto intro!: evolves_emit simp: allowed_def)
  then have e2: "evolves n s0 (emit TransportError (emit (Request url params) s))"
    and e3: "evolves n s0 (emit ResponseUrl (emit (Request url params) s))"
    by (auto intro!: evolves_emit simp: allowed_def)
  show ?case
    using 1 e2 e3
    by (subst retry_loop.simps) (auto split: outcome.splits simp: Let_def)
qed

lemma retry_loop_evolves_eq:
  "evolves n s0 s \<Longrightarrow> (if params = None then 0 else 1) \<le> n \<Longrightarrow>
   retry_loop w url params k s = (r, s') \<Longrightarrow> evolves n s0 s'"
  using retry_loop_evolves [of n s0 s params w url k] by simp

lemma get_source_evolves:
  "evolves n s0 s \<Longrightarrow> (if params = None then 0 else 1) \<le> n \<Longrightarrow>
   get_source w url params path s = (r, s') \<Longrightarrow> evolves n s0 s'"
proof -
  assume a: "evolves n s0 s" "(if params = None then 0 else 1) \<le> n"
    and g: "get_source w url params path s = (r, s')"
  from a have "evolves n s0 (emit (GetUrl url params) s)"
    by (auto intro!: evolves_emit simp: allowed_def)
  with g a(2) show ?thesis
    by (auto simp: get_source_def request_source_def read_path_def Let_def
        split: option.splits if_splits prod.splits intro: retry_loop_evolves_eq)
qed

lemma make_delay_evolves:
  "evolves n s0 s \<Longrightarrow> make_delay w s = (r, s') \<Longrightarrow> evolves n s0 s'"
  by (auto simp: make_delay_def delay_between_def sleep_def Let_def allowed_def
      split: option.splits delay_range.splits if_splits intro!: evolves_emit)

lemma offers_loop_evolves:
  "evolves n s0 s \<Longrightarrow> offers_loop doc item_url t xs s = (r, s') \<Longrightarrow> evolves n s0 s'"
  by (induction doc item_url t xs s rule: offers_loop.induct)
    (auto split: if_splits intro: evolves_append)

lemma get_item_data_evolves:
  "evolves n s0 s \<Longrightarrow> get_item_data w item_url s = (r, s') \<Longrightarrow> evolves n s0 s'"
  by (auto simp: get_item_data_def item_page_def Let_def allowed_def
      split: prod.splits sum.splits option.splits if_splits
      dest!: get_source_evolves [where n = n and ?s0.0 = s0, rotated 2]
      intro!: evolves_emit intro: offers_loop_evolves)

lemma items_loop_evolves:
  "evolves n s0 s \<Longrightarrow> items_loop w items s = (r, s') \<Longrightarrow> evolves n s0 s'"
proof (induction w items s rule: items_loop.induct)
  case (1 w s)
  then show ?case by simp
next
  case (2 w item rest s)
  show ?case
  proof (cases item)
    case None
    with 2 show ?thesis by simp
  next
    case (Some href)
    show ?thesis
    proof (cases href)
      case None
      with Some 2 show ?thesis by simp
    next
      case (Some link)
      obtain r1 s1 where g: "get_item_data w (domain @ link) s = (r1, s1)" by force
      have e1: "evolves n s0 s1" by (rule get_item_data_evolves [OF "2.prems"(1) g])
      show ?thesis
      proof (cases r1)
        case (Inl e)
        with g Some \<open>item = Some href\<close> 2 e1 show ?thesis by simp
      next
        case (Inr u)
        obtain r2 s2 where d: "make_delay w s1 = (r2, s2)" by force
        have e2: "evolves n s0 s2" by (rule make_delay_evolves [OF e1 d])
        show ?thesis
        proof (cases r2)
          case (Inl e)
          with Inr g d Some \<open>item = Some href\<close> 2 e2 show ?thesis by simp
        next
          case (Inr u')
          with \<open>r1 = Inr u\<close> g d Some \<open>item = Some href\<close> "2.prems"(2)
          have rest: "items_loop w rest s2 = (r, s')" by simp
          show ?thesis
            by (rule "2.IH" [OF \<open>item = Some href\<close> Some g [symmetric] \<open>r1 = Inr u\<close>
                  d [symmetric] Inr e2 rest])
        qed
      qed
    qed
  qed
qed

lemma extract_items_evolves:
  "evolves n s0 s \<Longrightarrow> extract_items w doc s = (r, s') \<Longrightarrow> evolves n s0 s'"
  by (auto simp: extract_items_def intro: items_loop_evolves)

lemma pages_loop_evolves:
  "evolves n s0 s \<Longrightarrow> 1 \<le> n \<Longrightarrow> pages_loop w url l ns s = (r, s') \<Longrightarrow> evolves n s0 s'"
proof (induction w url l ns s rule: pages_loop.induct)
  case (1 w url l s)
  then show ?case by simp
next
  case (2 w url l page_number rest s)
  let ?s = "emit (NextPage page_number l url) s"
  have e0: "evolves n s0 ?s"
    using "2.prems" by (auto intro!: evolves_emit simp: allowed_def)
  obtain r1 s1 where g: "get_source w url (Some page_number) None ?s = (r1, s1)" by force
  have e1: "evolves n s0 s1"
    using get_source_evolves [OF e0 _ g] "2.prems"(2) by simp
  then have e1': "evolves n s0 (emit (NoSource url) s1)"
    by (auto intro!: evolves_emit simp: allowed_def)
  show ?case
  proof (cases r1)
    case (Inl e)
    with g "2.prems" e1 show ?thesis by simp
  next
    case (Inr src)
    show ?thesis
    proof (cases "src = None \<or> src = Some []")
      case True
      with Inr g "2.prems" "2.IH"(1,2) [OF g [symmetric]] e1' show ?thesis
        by (auto split: if_splits)
    next
      case False
      then obtain source where src: "src = Some source" "source \<noteq> []" by auto
      obtain r2 s2 where x: "extract_items w (bs w source) s1 = (r2, s2)" by force
      have e2: "evolves n s0 s2" by (rule extract_items_evolves [OF e1 x])
      show ?thesis
      proof (cases r2)
        case (Inl e)
        with src Inr g x "2.prems" e2 show ?thesis by simp
      next
        case (Inr u)
        from "2.IH"(3) [OF g [symmetric] _ _ src(2) x [symmetric] _ e2 "2.prems"(2)]
          src \<open>r1 = Inr src\<close> Inr g x "2.prems"(3)
        show ?thesis by simp
      qed
    qed
  qed
qed

lemma get_items_evolves:
  "evolves n s0 s \<Longrightarrow> 1 \<le> n \<Longrightarrow> get_items w url s = (r, s') \<Longrightarrow> evolves n s0 s'"
proof -
  assume a: "evolves n s0 s" "1 \<le> n" and gi: "get_items w url s = (r, s')"
  obtain r1 s1 where g: "get_source w url None None s = (r1, s1)" by force
  have e1: "evolves n s0 s1" using get_source_evolves [OF a(1) _ g] by simp
  then have e1': "evolves n s0 (emit (NoSource url) s1)"
    by (auto intro!: evolves_emit simp: allowed_def)
  show ?thesis
    using gi g e1 e1' a(2)
    by (auto simp: get_items_def first_page_def Let_def
        split: sum.splits option.splits if_splits prod.splits
        dest: extract_items_evolves [OF e1] intro: pages_loop_evolves extract_items_evolves)
qed

lemma parse_cats_evolves:
  "evolves n s0 s \<Longrightarrow> parse_cats w s = (r, s') \<Longrightarrow> evolves n s0 s'"
proof -
  assume a: "evolves n s0 s" and pc: "parse_cats w s = (r, s')"
  obtain r1 s1 where g: "get_source w domain None (Some ''start_page.html'') s = (r1, s1)"
    by force
  have e1: "evolves n s0 s1" using get_source_evolves [OF a _ g] by simp
  then have e1': "evolves n s0 (emit (NoSource domain) s1)"
    by (auto intro!: evolves_emit simp: allowed_def)
  show ?thesis
    using pc g e1 e1'
    by (auto simp: parse_cats_def start_page_def
        split: sum.splits option.splits if_splits)
qed

lemma discovered_loop_evolves:
  "evolves n s0 s \<Longrightarrow> 2 \<le> n \<Longrightarrow> discovered_loop w cats s = (r, s') \<Longrightarrow> evolves n s0 s'"
proof (induction w cats s rule: discovered_loop.induct)
  case (1 w s)
  then show ?case by simp
next
  case (2 w c rest s)
  show ?case
  proof (cases "truthy (parent_id c)")
    case False
    with 2 show ?thesis by simp
  next
    case True
    let ?u = "domain @ cat_link c"
    have e0: "evolves n s0 (emit (StartCategory ?u) s)"
      using "2.prems" by (auto intro!: evolves_emit simp: allowed_def)
    obtain r1 s1 where g: "get_items w ?u (emit (StartCategory ?u) s) = (r1, s1)" by force
    have e1: "evolves n s0 s1" using get_items_evolves [OF e0 _ g] "2.prems"(2) by simp
    show ?thesis
    proof (cases r1)
      case (Inl e)
      with True g "2.prems" e1 show ?thesis by simp
    next
      case (Inr u)
      from "2.IH"(1) [OF True g [symmetric] Inr e1 "2.prems"(2)] True g Inr "2.prems"(3)
      show ?thesis by simp
    qed
  qed
qed

lemma configured_loop_evolves:
  "evolves n s0 s \<Longrightarrow> 2 \<le> n \<Longrightarrow> configured_loop w cats s = (r, s') \<Longrightarrow> evolves n s0 s'"
proof (induction w cats s rule: configured_loop.induct)
  case (1 w s)
  then show ?case by simp
next
  case (2 w c rest s)
  let ?u = "category_url c"
  have e0: "evolves n s0 (emit (StartCategory ?u) s)"
    using "2.prems" by (auto intro!: evolves_emit simp: allowed_def)
  obtain r1 s1 where g: "get_items w ?u (emit (StartCategory ?u) s) = (r1, s1)" by force
  have e1: "evolves n s0 s1" using get_items_evolves [OF e0 _ g] "2.prems"(2) by simp
  show ?case
  proof (cases r1)
    case (Inl e)
    with g "2.prems" e1 show ?thesis by simp
  next
    case (Inr u)
    from "2.IH" [OF g [symmetric] Inr e1 "2.prems"(2)] g Inr "2.prems"(3)
    show ?thesis by simp
  qed
qed

lemma write_csv_evolves: "evolves n s0 s \<Longrightarrow> 2 \<le> n \<Longrightarrow> evolves n s0 (write_csv s)"
  by (auto simp: write_csv_def allowed_def intro!: evolves_emit)

lemma private_start_parser_evolves:
  "evolves n s0 s \<Longrightarrow> 2 \<le> n \<Longrightarrow> private_start_parser w s = (r, s') \<Longrightarrow> evolves n s0 s'"
  by (auto simp: private_start_parser_def discover_and_parse_def parse_configured_def
      split: option.splits if_splits sum.splits prod.splits
      dest!: parse_cats_evolves [where n = n and ?s0.0 = s0, rotated]
      intro: write_csv_evolves discovered_loop_evolves configured_loop_evolves)

lemma attempts_evolves:
  "evolves 3 s0 s \<Longrightarrow> (\<And>s r s'. evolves 3 s0 s \<Longrightarrow> run s = (r, s') \<Longrightarrow> evolves 3 s0 s') \<Longrightarrow>
   attempts run rc im ks s = (r, s') \<Longrightarrow> evolves 3 s0 s'"
proof (induction run rc im ks s rule: attempts.induct)
  case (1 run rc im s)
  then show ?case by simp
next
  case (2 run rc im try_count rest s)
  obtain r1 s1 where g: "run s = (r1, s1)" by force
  have e1: "evolves 3 s0 s1" by (rule "2.prems"(2) [OF "2.prems"(1) g])
  show ?case
  proof (cases r1)
    case (Inr u)
    with g "2.prems"(3) e1 show ?thesis by simp
  next
    case (Inl e)
    have e2: "evolves 3 s0 (emit (MainError e) s1)"
      using e1 by (auto intro!: evolves_emit simp: allowed_def)
    then have e3: "evolves 3 s0 (emit (BadTry try_count) (emit (MainError e) s1))"
      and e4: "evolves 3 s0 (emit (BadTrySleep try_count im) (emit (MainError e) s1))"
      by (auto intro!: evolves_emit simp: allowed_def)
    then have e5: "evolves 3 s0
        (emit (Sleep (im * 60)) (emit (BadTrySleep try_count im) (emit (MainError e) s1)))"
      by (auto intro!: evolves_emit simp: allowed_def)
    show ?thesis
    proof (cases "try_count = rc")
      case True
      with Inl g "2.prems"(3) e3 show ?thesis by (simp add: Let_def)
    next
      case False
      show ?thesis
      proof (cases "im * 60 < 0")
        case True
        with False Inl g "2.prems"(3) e4 show ?thesis by (simp add: Let_def sleep_def)
      next
        case nn: False
        let ?s3 = "emit (Sleep (im * 60)) (emit (BadTrySleep try_count im) (emit (MainError e) s1))"
        have sl: "(Inr (), ?s3) = sleep (im * 60) (emit (BadTrySleep try_count im) (emit (MainError e) s1))"
          using nn by (simp add: sleep_def)
        have rest: "attempts run rc im rest ?s3 = (r, s')"
          using "2.prems"(3) g Inl False nn by (simp add: Let_def sleep_def)
        show ?thesis
          by (rule "2.IH" [OF g [symmetric] Inl refl False sl refl e5 "2.prems"(2) rest])
      qed
    qed
  qed
qed

lemma prepare_to_work_keeps:
  "results (prepare_to_work s) = results s \<and>
   csv_files (trace (prepare_to_work s)) = csv_files (trace s)"
  by (simp add: prepare_to_work_def Let_def emit_def csv_files_append)

lemma supervise_evolves:
  assumes "\<And>s r s'. evolves 3 (prepare_to_work s0) s \<Longrightarrow> run s = (r, s') \<Longrightarrow>
             evolves 3 (prepare_to_work s0) s'"
  shows "evolves 3 (prepare_to_work s0) (snd (supervise run s0))"
proof (cases "restart (config (prepare_to_work s0))")
  case None
  then show ?thesis by (simp add: supervise_def Let_def evolves_refl)
next
  case (Some r)
  let ?p = "prepare_to_work s0"
  obtain ra sa where a: "attempts run (restart_count r) (interval_m r) [1..restart_count r]
      (emit StartParsing ?p) = (ra, sa)" by force
  have "evolves 3 ?p (emit StartParsing ?p)"
    by (auto intro!: evolves_emit evolves_refl simp: allowed_def)
  from attempts_evolves [OF this assms a] have e: "evolves 3 ?p sa" .
  then have "evolves 3 ?p (emit EndParsing sa)"
    by (auto intro!: evolves_emit simp: allowed_def)
  with e Some a show ?thesis
    by (cases ra) (simp_all add: supervise_def Let_def)
qed

lemma start_parser_evolves:
  "evolves 3 (prepare_to_work s0) (snd (start_parser w s0))"
  unfolding start_parser_def
  by (rule supervise_evolves) (rule private_start_parser_evolves, simp_all)

subsection \<open>The deduplication check\<close>

text \<open>
  Claim C2. The check rejects an offered record exactly when a record of the store has the
  same article and the same barcode and both are non-empty in the offered record; a
  rejected record is not appended and an accepted one is appended at the end. Offering a
  record with a non-empty identity and then a record with the same identity to the empty
  store leaves one record. One offer keeps the identities pairwise distinct, and so they
  are after any sequence of offers to the empty store and at the end of \<open>start_parser\<close>
  on a new parser, whatever the site answers.
\<close>

theorem dedup_check:
  "(need_to_append_results (results s) new \<longleftrightarrow>
      \<not> (\<exists>r \<in> set (results s).
            sku_article r = sku_article new \<and> truthy (sku_article new) \<and>
            sku_barcode r = sku_barcode new \<and> truthy (sku_barcode new))) \<and>
   results (append_if_needed new s) =
     (if need_to_append_results (results s) new then results s @ [new] else results s) \<and>
   (truthy (sku_article new) \<and> truthy (sku_barcode new) \<and>
    sku_article again = sku_article new \<and> sku_barcode again = sku_barcode new \<longrightarrow>
      results (append_if_needed again (append_if_needed new (init cfg))) = [new]) \<and>
   (distinct (identities (results s)) \<longrightarrow>
      distinct (identities (results (append_if_needed new s)))) \<and>
   distinct (identities (results (fold append_if_needed offered (init cfg)))) \<and>
   distinct (identities (results (snd (start_parser w (init cfg)))))"
proof -
  have inv: "distinct (identities (results (fold append_if_needed xs s0)))"
    if "distinct (identities (results s0))" for xs s0
    using that by (induction xs arbitrary: s0) (simp_all add: identities_append_if_needed)
  have "distinct (identities (results (fold append_if_needed offered (init cfg))))"
    by (rule inv) (simp add: init_def identities_def)
  moreover have "results (append_if_needed again (append_if_needed new (init cfg))) = [new]"
    if "truthy (sku_article new)" "truthy (sku_barcode new)"
      "sku_article again = sku_article new" "sku_barcode again = sku_barcode new"
    using that by (simp add: append_if_needed_def init_def)
  moreover have "results (append_if_needed new s) =
     (if need_to_append_results (results s) new then results s @ [new] else results s)"
    by (simp add: append_if_needed_def)
  moreover have "distinct (identities (results (snd (start_parser w (init cfg)))))"
    by (rule evolves_identities [OF start_parser_evolves])
      (simp add: prepare_to_work_keeps init_def identities_def)
  ultimately show ?thesis
    using need_to_append_results_iff [of "results s" new] identities_append_if_needed [of s new]
    by blast
qed

theorem dedup_check_witness:
  "truthy (sku_article sku_A1) \<and> truthy (sku_barcode sku_A1) \<and>
   \<not> need_to_append_results [sku_A1] (sku_A1\<lparr>price := Some ''90''\<rparr>) \<and>
   results (append_if_needed (sku_A1\<lparr>price := Some ''90''\<rparr>)
              (append_if_needed sku_A1 (init config_3))) = [sku_A1] \<and>
   distinct (identities (results (append_if_needed sku_A1 (init config_3)))) \<and>
   distinct (identities (results (append_if_needed sku_A1 (append_if_needed sku_A1 (init config_3)))))"
  using dedup_check [where s = "append_if_needed sku_A1 (init config_3)" and new = sku_A1
      and again = "sku_A1\<lparr>price := Some ''90''\<rparr>" and cfg = config_3
      and offered = "[sku_A1, sku_A1]"]
  by (simp add: sku_A1_def init_def append_if_needed_def identities_def)

text \<open>
  Claim C7. A record whose article is empty or absent, or whose barcode is empty or absent,
  is accepted and appended whatever the store holds, so also after an equal record.
\<close>

theorem empty_identity_kept:
  "\<not> truthy (sku_article new) \<or> \<not> truthy (sku_barcode new) \<Longrightarrow>
   need_to_append_results (results s) new \<and>
   results (append_if_needed new s) = results s @ [new]"
  by (auto simp: need_to_append_results_iff append_if_needed_def)

theorem empty_identity_kept_witness:
  "\<not> truthy (sku_barcode sku_blank) \<and>
   results (append_if_needed sku_blank (append_if_needed sku_blank (init config_3))) =
     [sku_blank, sku_blank]"
  using empty_identity_kept [of sku_blank "append_if_needed sku_blank (init config_3)"]
    empty_identity_kept [of sku_blank "init config_3"]
  by (simp add: sku_blank_def init_def)

subsection \<open>Fetching with retries\<close>

lemma requests_of_emit:
  "requests_of (trace (emit e s)) = requests_of (trace s) @ (if is_request e then [e] else [])"
  by (simp add: emit_def requests_of_def)

lemma retry_loop_failing:
  "\<forall>t. \<not> accepted (net w t url params) \<Longrightarrow>
   fst (retry_loop w url params n s) = None \<and>
   requests_of (trace (snd (retry_loop w url params n s))) =
     requests_of (trace s) @ replicate (nat n) (Request url params)"
proof (induction w url params n s rule: retry_loop.induct)
  case (1 w url params n s)
  show ?case
  proof (cases "n > 0")
    case False
    then show ?thesis by (simp add: requests_of_emit retry_loop.simps [of w url params n s])
  next
    case True
    then have n: "nat n = Suc (nat (n - 1))" by (simp add: requests_of_emit)
    show ?thesis
    proof (cases "net w (length (trace s)) url params")
      case Raised
      with True 1 show ?thesis
        by (simp add: requests_of_emit retry_loop.simps [of w url params n s] n)
    next
      case (Response ok code body)
      moreover from 1(3) have "\<not> accepted (net w (length (trace s)) url params)" by blast
      ultimately have na: "\<not> (ok \<and> code = 200)" by (simp add: requests_of_emit)
      with True 1 Response show ?thesis
        by (simp add: requests_of_emit retry_loop.simps [of w url params n s] n Let_def)
    qed
  qed
qed

lemma retry_loop_accepts:
  "retry_loop w url params n s = (Some content, s') \<Longrightarrow>
   \<exists>t. net w t url params = Response True 200 content"
proof (induction w url params n s rule: retry_loop.induct)
  case (1 w url params n s)
  show ?case
  proof (cases "n > 0")
    case False
    with 1(3) show ?thesis by (simp add: retry_loop.simps [of w url params n s])
  next
    case True
    show ?thesis
    proof (cases "net w (length (trace s)) url params")
      case Raised
      with True 1 show ?thesis
        by (simp add: retry_loop.simps [of w url params n s])
    next
      case (Response ok code body)
      show ?thesis
      proof (cases "ok \<and> code = 200")
        case True
        with \<open>n > 0\<close> Response 1(3) have "body = content"
          by (simp add: retry_loop.simps [of w url params n s] Let_def)
        with True Response show ?thesis by auto
      next
        case False
        with \<open>n > 0\<close> Response 1 show ?thesis
          by (simp add: retry_loop.simps [of w url params n s] Let_def)
      qed
    qed
  qed
qed

lemma retry_loop_requests:
  "\<exists>k. k \<le> nat n \<and> (0 < n \<longrightarrow> 0 < k) \<and>
       requests_of (trace (snd (retry_loop w url params n s))) =
         requests_of (trace s) @ replicate k (Request url params)"
proof (induction w url params n s rule: retry_loop.induct)
  case (1 w url params n s)
  show ?case
  proof (cases "n > 0")
    case False
    then show ?thesis by (simp add: requests_of_emit retry_loop.simps [of w url params n s])
  next
    case True
    show ?thesis
    proof (cases "net w (length (trace s)) url params")
      case Raised
      from 1(1) [OF True Raised] obtain k where
        k: "k \<le> nat (n - 1)"
        "requests_of (trace (snd (retry_loop w url params (n - 1)
            (emit TransportError (emit (Request url params) s))))) =
          requests_of (trace (emit TransportError (emit (Request url params) s))) @
          replicate k (Request url params)"
        by blast
      with True Raised show ?thesis
        by (intro exI [of _ "Suc k"]) (simp add: requests_of_emit retry_loop.simps [of w url params n s])
    next
      case (Response ok code body)
      show ?thesis
      proof (cases "ok \<and> code = 200")
        case acc: True
        with True Response show ?thesis
          by (intro exI [of _ "Suc 0"]) (simp add: requests_of_emit retry_loop.simps [of w url params n s] Let_def)
      next
        case False
        from 1(2) [OF True Response refl False] obtain k where
          k: "k \<le> nat (n - 1)"
          "requests_of (trace (snd (retry_loop w url params (n - 1)
              (emit ResponseUrl (emit (Request url params) s))))) =
            requests_of (trace (emit ResponseUrl (emit (Request url params) s))) @
            replicate k (Request url params)"
          by blast
        with True Response False show ?thesis
          by (intro exI [of _ "Suc k"]) (auto simp: requests_of_emit retry_loop.simps [of w url params n s] Let_def)
      qed
    qed
  qed
qed

text \<open>
  Claim C4. With \<open>max_retries\<close> 3 and a transport whose every try raises or answers
  with a response that is not ok or not 200, \<open>_get_source\<close> returns None without raising
  after exactly three requests. Whenever \<open>_get_source\<close> returns a text from the
  network, the transport did answer with an ok response of status 200 carrying that text.
\<close>

theorem retry_exhaustion:
  "(max_retries (config s) = Some 3 \<and> (\<forall>t. \<not> accepted (net w t url params)) \<longrightarrow>
      fst (get_source w url params None s) = Inr None \<and>
      requests_of (trace (snd (get_source w url params None s))) =
        requests_of (trace s) @ replicate 3 (Request url params)) \<and>
   (get_source w' url' params' None sa = (Inr (Some content), sb) \<longrightarrow>
      (\<exists>t. net w' t url' params' = Response True 200 content))"
proof (intro conjI impI)
  assume a: "max_retries (config s) = Some 3 \<and> (\<forall>t. \<not> accepted (net w t url params))"
  then have f: "\<forall>t. \<not> accepted (net w t url params)" by (simp add: requests_of_emit)
  have c: "max_retries (config (emit (GetUrl url params) s)) = Some 3"
    using a by (simp add: requests_of_emit emit_def)
  from c retry_loop_failing [OF f, of 3 "emit (GetUrl url params) s"]
  show "fst (get_source w url params None s) = Inr None"
    by (simp add: requests_of_emit get_source_def request_source_def case_prod_beta)
  from c retry_loop_failing [OF f, of 3 "emit (GetUrl url params) s"]
  show "requests_of (trace (snd (get_source w url params None s))) =
        requests_of (trace s) @ replicate 3 (Request url params)"
    by (simp add: requests_of_emit get_source_def request_source_def case_prod_beta)
next
  assume "get_source w' url' params' None sa = (Inr (Some content), sb)"
  then show "\<exists>t. net w' t url' params' = Response True 200 content"
    by (auto simp: requests_of_emit get_source_def request_source_def Let_def
        split: option.splits prod.splits dest: retry_loop_accepts)
qed

theorem retry_exhaustion_witness:
  "max_retries (config (init config_3)) = Some 3 \<and>
   (\<forall>t. \<not> accepted (net site_down t ''https://zootovary.ru/catalog/x/'' None)) \<and>
   fst (get_source site_down ''https://zootovary.ru/catalog/x/'' None None (init config_3)) = Inr None \<and>
   length (requests_of (trace (snd
     (get_source site_down ''https://zootovary.ru/catalog/x/'' None None (init config_3))))) = 3 \<and>
   fst (get_source site_up ''https://zootovary.ru/catalog/x/'' None None (init config_3)) =
     Inr (Some ''<html></html>'') \<and>
   (\<exists>t. net site_up t ''https://zootovary.ru/catalog/x/'' None = Response True 200 ''<html></html>'')"
proof -
  have down: "\<forall>t. \<not> accepted (net site_down t ''https://zootovary.ru/catalog/x/'' None)"
    by (simp add: site_down_def)
  have fst_up: "fst (get_source site_up ''https://zootovary.ru/catalog/x/'' None None (init config_3)) =
      Inr (Some ''<html></html>'')"
    by (simp add: get_source_def request_source_def retry_loop.simps site_up_def site_down_def
        init_def config_3_def emit_def)
  then have up: "get_source site_up ''https://zootovary.ru/catalog/x/'' None None (init config_3) =
      (Inr (Some ''<html></html>''),
       snd (get_source site_up ''https://zootovary.ru/catalog/x/'' None None (init config_3)))"
    by (metis prod.collapse)
  show ?thesis
    using retry_exhaustion [where s = "init config_3" and w = site_down
        and url = "''https://zootovary.ru/catalog/x/''" and params = None and w' = site_up
        and url' = "''https://zootovary.ru/catalog/x/''" and params' = None
        and content = "''<html></html>''" and sa = "init config_3" and sb =
        "snd (get_source site_up ''https://zootovary.ru/catalog/x/'' None None (init config_3))"]
      down up fst_up
    by (simp add: init_def config_3_def requests_of_def)
qed

subsection \<open>Validation of \<open>max_retries\<close>\<close>

lemma prepare_to_work_max_retries:
  "max_retries (config (prepare_to_work s)) =
     (if falsy_int (max_retries (config s)) then Some 1 else max_retries (config s))"
  by (simp add: prepare_to_work_def Let_def emit_def)

lemma get_source_requests:
  assumes "max_retries (config s) = Some n" and "1 \<le> n"
  shows "\<exists>k>0. requests_of (trace (snd (get_source w url params None s))) =
           requests_of (trace s) @ replicate k (Request url params)"
proof -
  let ?s = "emit (GetUrl url params) s"
  from retry_loop_requests [of n w url params ?s] assms(2)
  obtain k where "0 < k"
    "requests_of (trace (snd (retry_loop w url params n ?s))) =
       requests_of (trace ?s) @ replicate k (Request url params)"
    by (auto simp: requests_of_emit)
  moreover have "max_retries (config ?s) = Some n" using assms(1) by (simp add: requests_of_emit emit_def)
  ultimately show ?thesis
    by (intro exI [of _ k]) (simp add: requests_of_emit get_source_def request_source_def case_prod_beta Let_def)
qed

text \<open>
  Claim C10, amended. \<open>_prepare_to_work\<close> replaces a falsy \<open>max_retries\<close> (absent,
  null or 0) by 1 and keeps every other value, so afterwards the value is neither absent
  nor 0. If the configured value is not negative, the value is at least 1 afterwards and
  every fetch from the network makes at least one request.
\<close>

theorem prepare_max_retries:
  "max_retries (config (prepare_to_work s)) =
     (if falsy_int (max_retries (config s)) then Some 1 else max_retries (config s)) \<and>
   \<not> falsy_int (max_retries (config (prepare_to_work s))) \<and>
   ((\<forall>n. max_retries (config s) = Some n \<longrightarrow> 0 \<le> n) \<longrightarrow>
      (\<exists>n\<ge>1. max_retries (config (prepare_to_work s)) = Some n) \<and>
      (\<exists>k>0. requests_of (trace (snd (get_source w url params None (prepare_to_work s)))) =
                requests_of (trace (prepare_to_work s)) @ replicate k (Request url params)))"
proof (intro conjI impI)
  show "max_retries (config (prepare_to_work s)) =
     (if falsy_int (max_retries (config s)) then Some 1 else max_retries (config s))"
    by (rule prepare_to_work_max_retries)
  show "\<not> falsy_int (max_retries (config (prepare_to_work s)))"
    by (simp add: prepare_to_work_max_retries) (simp add: falsy_int_def)
  assume nn: "\<forall>n. max_retries (config s) = Some n \<longrightarrow> 0 \<le> n"
  then show ex: "\<exists>n\<ge>1. max_retries (config (prepare_to_work s)) = Some n"
    by (cases "max_retries (config s)") (auto simp: prepare_to_work_max_retries falsy_int_def)
  then obtain n where "1 \<le> n" "max_retries (config (prepare_to_work s)) = Some n" by blast
  then show "\<exists>k>0. requests_of (trace (snd (get_source w url params None (prepare_to_work s)))) =
                requests_of (trace (prepare_to_work s)) @ replicate k (Request url params)"
    using get_source_requests by blast
qed

theorem prepare_max_retries_witness:
  "max_retries (config (init (config_3\<lparr>max_retries := Some 0\<rparr>))) = Some 0 \<and>
   max_retries (config (prepare_to_work (init (config_3\<lparr>max_retries := Some 0\<rparr>)))) = Some 1 \<and>
   requests_of (trace (snd (get_source site_down ''https://zootovary.ru/catalog/x/'' None None
       (prepare_to_work (init (config_3\<lparr>max_retries := Some 0\<rparr>)))))) =
     [Request ''https://zootovary.ru/catalog/x/'' None]"
  using prepare_max_retries [of "init (config_3\<lparr>max_retries := Some 0\<rparr>)" site_down
      "''https://zootovary.ru/catalog/x/''" None]
  by (simp add: init_def config_3_def falsy_int_def prepare_to_work_def emit_def Let_def
      get_source_def request_source_def retry_loop.simps site_down_def requests_of_def)

text \<open>
  The claim as stated fails for a negative value: \<open>-1\<close> is truthy and stays, the loop
  \<open>while max_retries > 0\<close> is not entered, and the fetch returns None without any
  request although the site would answer.
\<close>

theorem negative_max_retries_counterexample:
  "max_retries (config (prepare_to_work (init config_negative))) = Some (- 1) \<and>
   fst (get_source site_up ''https://zootovary.ru/catalog/x/'' None None
         (prepare_to_work (init config_negative))) = Inr None \<and>
   requests_of (trace (snd (get_source site_up ''https://zootovary.ru/catalog/x/'' None None
         (prepare_to_work (init config_negative))))) = []"
  by (simp add: init_def config_negative_def config_3_def falsy_int_def prepare_to_work_def
      emit_def Let_def get_source_def request_source_def retry_loop.simps requests_of_def)

subsection \<open>Discovery without a source\<close>

text \<open>
  Claim C1 at a failing input: no categories are configured and \<open>start_page.html\<close> is an
  empty file. \<open>parse_cats\<close> logs the warning and returns None; \<open>_start_parser\<close>
  iterates over that None, and the TypeError reaches \<open>start_parser\<close>.
\<close>

theorem discovery_without_source:
  "fst (parse_cats empty_start_page (init config_3)) = Inr None \<and>
   private_start_parser empty_start_page (init config_3) =
     (Inl TypeError,
      \<lparr>config = config_3, results = [],
       trace = [GetUrl ''https://zootovary.ru'' None, NoSource ''https://zootovary.ru'']\<rparr>)"
  by (simp add: private_start_parser_def discover_and_parse_def parse_cats_def get_source_def
      read_path_def empty_start_page_def site_up_def site_down_def init_def config_3_def
      emit_def domain_def)

subsection \<open>The restarts of \<open>start_parser\<close>\<close>






subsection \<open>Pagination\<close>





lemma last_page_number_cases:
  "(navigation doc = None \<longrightarrow> last_page_number doc = Inr None) \<and>
   (navigation doc = Some (anchors @ [None]) \<longrightarrow> last_page_number doc = Inr None) \<and>
   (navigation doc = Some (anchors @ [Some href]) \<longrightarrow>
      last_page_number doc = Inr (py_int (split_last ''PAGEN_1='' href)))"
  by (simp add: last_page_number_def)









subsection \<open>Which categories are walked\<close>








subsection \<open>The store across failures\<close>

lemma csv_files_allowed:
  "allowed n s e \<Longrightarrow> csv_files [e] = [] \<or> csv_files [e] = [results s]"
  by (cases e) (simp_all add: allowed_def)

lemma evolves_csv_files:
  "evolves n s s' \<Longrightarrow>
   \<exists>ds. csv_files (trace s') = csv_files (trace s) @ ds \<and>
        (\<forall>d\<in>set ds. prefix (results s) d \<and> prefix d (results s'))"
proof (induction rule: evolves.induct)
  case evolves_refl
  show ?case by simp
next
  case (evolves_emit s' e)
  then obtain ds where ds: "csv_files (trace s') = csv_files (trace s) @ ds"
    "\<forall>d\<in>set ds. prefix (results s) d \<and> prefix d (results s')" by blast
  have r: "prefix (results s) (results s')" by (rule evolves_results [OF evolves_emit(1)])
  from csv_files_allowed [OF evolves_emit(2)] show ?case
  proof
    assume "csv_files [e] = []"
    with ds show ?thesis
      by (intro exI [of _ ds]) (simp add: emit_def csv_files_append)
  next
    assume "csv_files [e] = [results s']"
    with ds r show ?thesis
      by (intro exI [of _ "ds @ [results s']"]) (auto simp: emit_def csv_files_append)
  qed
next
  case (evolves_append s' res)
  then obtain ds where ds: "csv_files (trace s') = csv_files (trace s) @ ds"
    "\<forall>d\<in>set ds. prefix (results s) d \<and> prefix d (results s')" by blast
  have "prefix (results s') (results (append_if_needed res s'))"
    by (simp add: append_if_needed_def)
  with ds show ?case
    by (intro exI [of _ ds]) (auto simp: append_if_needed_def intro: prefix_order.trans)
qed

text \<open>
  Claim C6. One traversal, whether it raises or not, keeps the store it started with as a
  prefix of the store it leaves, and keeps the identities pairwise distinct. A traversal
  that completes ends by writing its whole store to the CSV file. After a failed try that
  is not the last one the next try starts on a state with the same store. For the whole
  of \<open>start_parser\<close>: the store at its start is a prefix of the store at its end, the
  identities stay pairwise distinct, and every CSV file written holds the store of the
  start and only records that are still in the store at the end.
\<close>

theorem collected_state_survives:
  "prefix (results s) (results (snd (private_start_parser w s))) \<and>
   (distinct (identities (results s)) \<longrightarrow>
      distinct (identities (results (snd (private_start_parser w s))))) \<and>
   (private_start_parser w s = (Inr (), s') \<longrightarrow> (\<exists>tr. trace s' = tr @ [WriteCsv (results s')])) \<and>
   (private_start_parser w s = (Inl e, sa) \<and> try_count \<noteq> rc \<and> 0 \<le> im \<longrightarrow>
      (\<exists>sb. results sb = results sa \<and>
            attempts (private_start_parser w) rc im (try_count # rest) s =
            attempts (private_start_parser w) rc im rest sb)) \<and>
   prefix (results s0) (results (snd (start_parser w s0))) \<and>
   (distinct (identities (results s0)) \<longrightarrow>
      distinct (identities (results (snd (start_parser w s0))))) \<and>
   (\<exists>ds. csv_files (trace (snd (start_parser w s0))) = csv_files (trace s0) @ ds \<and>
         (\<forall>d\<in>set ds. prefix (results s0) d \<and> prefix d (results (snd (start_parser w s0)))))"
proof (intro conjI impI)
  have ev: "evolves 2 s (snd (private_start_parser w s))"
    by (rule private_start_parser_evolves [OF evolves_refl _ prod.collapse [symmetric]]) simp
  show "prefix (results s) (results (snd (private_start_parser w s)))"
    by (rule evolves_results [OF ev])
  show "distinct (identities (results (snd (private_start_parser w s))))"
    if "distinct (identities (results s))"
    by (rule evolves_identities [OF ev that])
  show "\<exists>tr. trace s' = tr @ [WriteCsv (results s')]"
    if "private_start_parser w s = (Inr (), s')"
    using that
    by (auto simp: private_start_parser_def discover_and_parse_def parse_configured_def
        write_csv_def emit_def split: option.splits if_splits sum.splits prod.splits)
  show "\<exists>sb. results sb = results sa \<and>
            attempts (private_start_parser w) rc im (try_count # rest) s =
            attempts (private_start_parser w) rc im rest sb"
    if "private_start_parser w s = (Inl e, sa) \<and> try_count \<noteq> rc \<and> 0 \<le> im"
    using that
    by (intro exI [of _ "emit (Sleep (im * 60)) (emit (BadTrySleep try_count im)
          (emit (MainError e) sa))"])
      (simp add: Let_def sleep_def emit_def)
  note sp = start_parser_evolves [of s0 w]
  show "prefix (results s0) (results (snd (start_parser w s0)))"
    using evolves_results [OF sp] by (simp add: prepare_to_work_keeps)
  show "distinct (identities (results (snd (start_parser w s0))))"
    if "distinct (identities (results s0))"
    using evolves_identities [OF sp] that by (simp add: prepare_to_work_keeps)
  show "\<exists>ds. csv_files (trace (snd (start_parser w s0))) = csv_files (trace s0) @ ds \<and>
         (\<forall>d\<in>set ds. prefix (results s0) d \<and> prefix d (results (snd (start_parser w s0))))"
    using evolves_csv_files [OF sp] by (simp add: prepare_to_work_keeps)
qed

theorem collected_state_survives_witness:
  "(fst (private_start_parser (demo_shop 20 [])
         (emit StartParsing (prepare_to_work (init config_toys)))) = Inl IndexError \<and>
   map sku_article (results (snd (private_start_parser (demo_shop 20 [])
         (emit StartParsing (prepare_to_work (init config_toys)))))) = [Some ''A1''] \<and>
   fst (start_parser (demo_shop 20 []) (init config_toys)) = Inr () \<and>
   map sku_article (results (snd (start_parser (demo_shop 20 []) (init config_toys)))) =
     [Some ''A1'', Some ''A2''] \<and>
   map (map sku_article) (csv_files (trace (snd (start_parser (demo_shop 20 []) (init config_toys))))) =
     [[Some ''A1'', Some ''A2'']] \<and>
   distinct (identities (results (init config_toys))) \<and>
   distinct (identities (results (snd (start_parser (demo_shop 20 []) (init config_toys)))))) \<and>
   fst (private_start_parser (demo_shop 0 []) (init config_toys)) = Inr () \<and>
   last (trace (snd (private_start_parser (demo_shop 0 []) (init config_toys)))) =
     WriteCsv (results (snd (private_start_parser (demo_shop 0 []) (init config_toys)))) \<and>
   (\<exists>sb. map sku_article (results sb) = [Some ''A1''] \<and>
      attempts (private_start_parser (demo_shop 20 [])) 2 (1 / 2) [1, 2]
        (emit StartParsing (prepare_to_work (init config_toys))) =
      attempts (private_start_parser (demo_shop 20 [])) 2 (1 / 2) [2] sb)"
proof -
  have old: "fst (private_start_parser (demo_shop 20 [])
         (emit StartParsing (prepare_to_work (init config_toys)))) = Inl IndexError \<and>
   map sku_article (results (snd (private_start_parser (demo_shop 20 [])
         (emit StartParsing (prepare_to_work (init config_toys)))))) = [Some ''A1''] \<and>
   fst (start_parser (demo_shop 20 []) (init config_toys)) = Inr () \<and>
   map sku_article (results (snd (start_parser (demo_shop 20 []) (init config_toys)))) =
     [Some ''A1'', Some ''A2''] \<and>
   map (map sku_article) (csv_files (trace (snd (start_parser (demo_shop 20 []) (init config_toys))))) =
     [[Some ''A1'', Some ''A2'']] \<and>
   distinct (identities (results (init config_toys))) \<and>
   distinct (identities (results (snd (start_parser (demo_shop 20 []) (init config_toys)))))"
  proof -
    have d0: "distinct (identities (results (init config_toys)))"
      by (simp add: init_def identities_def)
    have up: "[1..2] = [1, 2::int]" by (simp add: upto_rec1)
    have a: "fst (private_start_parser (demo_shop 20 [])
           (emit StartParsing (prepare_to_work (init config_toys)))) = Inl IndexError"
      "map sku_article (results (snd (private_start_parser (demo_shop 20 [])
           (emit StartParsing (prepare_to_work (init config_toys)))))) = [Some ''A1'']"
      by (simp_all add: demo_defs method_defs supervisor_defs)
    have b: "fst (start_parser (demo_shop 20 []) (init config_toys)) = Inr ()"
      "map sku_article (results (snd (start_parser (demo_shop 20 []) (init config_toys)))) =
         [Some ''A1'', Some ''A2'']"
      "map (map sku_article) (csv_files (trace (snd (start_parser (demo_shop 20 []) (init config_toys))))) =
         [[Some ''A1'', Some ''A2'']]"
      by (simp_all add: demo_defs method_defs supervisor_defs up)
    from collected_state_survives [where ?s0.0 = "init config_toys" and w = "demo_shop 20 []"] d0
    have "distinct (identities (results (snd (start_parser (demo_shop 20 []) (init config_toys)))))"
      by blast
    with a b d0 show ?thesis by simp
  qed
  have extra: "fst (private_start_parser (demo_shop 0 []) (init config_toys)) = Inr () \<and>
      last (trace (snd (private_start_parser (demo_shop 0 []) (init config_toys)))) =
        WriteCsv (results (snd (private_start_parser (demo_shop 0 []) (init config_toys)))) \<and>
      (\<exists>sb. map sku_article (results sb) = [Some ''A1''] \<and>
         attempts (private_start_parser (demo_shop 20 [])) 2 (1 / 2) [1, 2]
           (emit StartParsing (prepare_to_work (init config_toys))) =
         attempts (private_start_parser (demo_shop 20 [])) 2 (1 / 2) [2] sb)"
  proof -
    let ?p = "private_start_parser (demo_shop 0 []) (init config_toys)"
    let ?s1 = "emit StartParsing (prepare_to_work (init config_toys))"
    let ?q = "private_start_parser (demo_shop 20 []) ?s1"
    have fp: "fst ?p = Inr ()"
      by (simp add: demo_defs method_defs supervisor_defs)
    then have p: "?p = (Inr (), snd ?p)" by (metis prod.collapse)
    from collected_state_survives [where w = "demo_shop 0 []" and s = "init config_toys"
        and s' = "snd ?p"] p
    obtain tr where "trace (snd ?p) = tr @ [WriteCsv (results (snd ?p))]" by blast
    then have lp: "last (trace (snd ?p)) = WriteCsv (results (snd ?p))" by simp
    have "fst ?q = Inl IndexError"
      by (simp add: demo_defs method_defs supervisor_defs)
    then have q: "?q = (Inl IndexError, snd ?q)" by (metis prod.collapse)
    have rq: "map sku_article (results (snd ?q)) = [Some ''A1'']"
      by (simp add: demo_defs method_defs supervisor_defs)
    have ne: "(1::int) \<noteq> 2" and nn: "(0::real) \<le> 1 / 2" by simp_all
    from collected_state_survives [where w = "demo_shop 20 []" and s = ?s1 and e = IndexError
        and sa = "snd ?q" and try_count = 1 and rc = 2 and im = "1 / 2" and rest = "[2]"]
    have "?q = (Inl IndexError, snd ?q) \<and> (1::int) \<noteq> 2 \<and> (0::real) \<le> 1 / 2 \<longrightarrow>
        (\<exists>sb. results sb = results (snd ?q) \<and>
           attempts (private_start_parser (demo_shop 20 [])) 2 (1 / 2) [1, 2] ?s1 =
           attempts (private_start_parser (demo_shop 20 [])) 2 (1 / 2) [2] sb)"
      by blast
    with q ne nn obtain sb where "results sb = results (snd ?q)"
      "attempts (private_start_parser (demo_shop 20 [])) 2 (1 / 2) [1, 2] ?s1 =
       attempts (private_start_parser (demo_shop 20 [])) 2 (1 / 2) [2] sb"
      by blast
    with rq have "\<exists>sb. map sku_article (results sb) = [Some ''A1''] \<and>
        attempts (private_start_parser (demo_shop 20 [])) 2 (1 / 2) [1, 2] ?s1 =
        attempts (private_start_parser (demo_shop 20 [])) 2 (1 / 2) [2] sb"
      by metis
    with fp lp show ?thesis by blast
  qed
  from old extra show ?thesis by blast
qed

subsection \<open>The delay between items\<close>





















end
